theory Spec2Isabelle
  imports Main
begin

section \<open>Values, exceptions and effects\<close>

text \<open>
  The module \<^verbatim>\<open>tdom/conditional.py\<close> handles arbitrary Python objects. The model keeps
  the kinds of object its code tells apart:
  \<^item> \<open>PNone\<close>, matched by \<^verbatim>\<open>case None\<close>;
  \<^item> \<open>PBool\<close>, \<open>PStr\<close> and \<open>PObj\<close>: plain data (an opaque object is named by a number);
  \<^item> \<open>PMarkup\<close>: a \<^verbatim>\<open>markupsafe.Markup\<close>, the trusted text, whose \<^verbatim>\<open>__html__\<close>
    returns its own content;
  \<^item> \<open>PHtmlObj h r\<close>: any other object with an \<^verbatim>\<open>__html__\<close> method; \<open>h\<close> names the
    object and \<open>r\<close> is what the method does when called (raise, or return a string);
  \<^item> \<open>PCallable k r\<close>: an object for which \<^verbatim>\<open>callable\<close> holds; \<open>k\<close> names it and
    \<open>r\<close> is what calling it with no argument does (raise, or return a value);
  \<^item> \<open>UNSET\<close>: the module's private sentinel object \<^verbatim>\<open>_UNSET\<close>.
  A raised exception is a value \<open>Inl e\<close>. Every call of a callable and of an
  \<^verbatim>\<open>__html__\<close> method is recorded: a computation returns its outcome together with
  the list of the objects it called, in order. Conditions are of type \<open>bool\<close>, as the source
  annotates them.
\<close>

datatype pyexn = PyExn string

datatype pyval =
    PNone
  | PBool bool
  | PStr string
  | PObj nat
  | PMarkup string
  | PHtmlObj nat "pyexn + string"
  | PCallable nat "pyexn + pyval"
  | UNSET

type_synonym 'a result = "(pyexn + 'a) \<times> nat list"

definition outcome :: "'a result \<Rightarrow> pyexn + 'a" where
  "outcome r = fst r"

definition calls :: "'a result \<Rightarrow> nat list" where
  "calls r = snd r"

text \<open>Python's builtin \<^verbatim>\<open>callable(val)\<close> and the call \<^verbatim>\<open>val()\<close>.\<close>

fun callable :: "pyval \<Rightarrow> bool" where
  "callable (PCallable k r) = True"
| "callable v = False"

fun call :: "pyval \<Rightarrow> pyval result" where
  "call (PCallable k r) = (r, [k])"
| "call v = (Inl (PyExn ''TypeError''), [])"

section \<open>The module's functions\<close>

text \<open>\<^verbatim>\<open>def _resolve_value(val): return val() if callable(val) else val\<close>\<close>

definition resolve_value :: "pyval \<Rightarrow> pyval result" where
  "resolve_value val = (if callable val then call val else (Inr val, []))"

text \<open>
  The class \<^verbatim>\<open>Conditions\<close> has the two slots \<^verbatim>\<open>_cases\<close> and \<^verbatim>\<open>_default\<close>;
  \<^verbatim>\<open>__init__\<close> sets them to the empty list and to the sentinel. \<^verbatim>\<open>when\<close> appends a
  pair, \<^verbatim>\<open>default\<close> assigns the slot, and both return the instance. (\<open>when\<close> is a
  keyword of Isabelle and \<open>default\<close> a constant of HOL, hence the suffix.)
\<close>

record conditions =
  c_cases :: "(bool \<times> pyval) list"
  c_default :: pyval

definition Conditions_init :: conditions where
  "Conditions_init = \<lparr>c_cases = [], c_default = UNSET\<rparr>"

definition when_op :: "bool \<Rightarrow> pyval \<Rightarrow> conditions \<Rightarrow> conditions" where
  "when_op condition val self = self\<lparr>c_cases := c_cases self @ [(condition, val)]\<rparr>"

definition default_op :: "pyval \<Rightarrow> conditions \<Rightarrow> conditions" where
  "default_op val self = self\<lparr>c_default := val\<rparr>"

text \<open>
  \<^verbatim>\<open>Conditions._resolve\<close>: the \<^verbatim>\<open>for\<close> loop over \<^verbatim>\<open>self._cases\<close> returns from the
  first pair whose condition holds; after the loop comes the test of the default against the
  sentinel, and \<^verbatim>\<open>return None\<close>.
\<close>

fun resolve_loop :: "(bool \<times> pyval) list \<Rightarrow> pyval \<Rightarrow> pyval result" where
  "resolve_loop [] dflt =
     (if dflt \<noteq> UNSET then resolve_value dflt else (Inr PNone, []))"
| "resolve_loop ((cond, val) # rest) dflt =
     (if cond then resolve_value val else resolve_loop rest dflt)"

definition resolve :: "conditions \<Rightarrow> pyval result" where
  "resolve self = resolve_loop (c_cases self) (c_default self)"

text \<open>
  \<^verbatim>\<open>cond(*pairs, default=_UNSET)\<close>. The keyword argument is optional: a call that leaves
  it out is \<open>cond pairs None\<close>, and the parameter then holds the sentinel.
\<close>

fun cond_loop :: "(bool \<times> pyval) list \<Rightarrow> pyval \<Rightarrow> pyval result" where
  "cond_loop [] dflt =
     (if dflt \<noteq> UNSET then resolve_value dflt else (Inr PNone, []))"
| "cond_loop ((condition, val) # pairs) dflt =
     (if condition then resolve_value val else cond_loop pairs dflt)"

definition cond :: "(bool \<times> pyval) list \<Rightarrow> pyval option \<Rightarrow> pyval result" where
  "cond pairs default_arg =
     cond_loop pairs (case default_arg of None \<Rightarrow> UNSET | Some d \<Rightarrow> d)"

text \<open>
  A caller builds an instance by calling \<^verbatim>\<open>when\<close> once for each pair, in order, and
  then \<^verbatim>\<open>default\<close> when it has a default to give.
\<close>

fun when_all :: "(bool \<times> pyval) list \<Rightarrow> conditions \<Rightarrow> conditions" where
  "when_all [] self = self"
| "when_all ((condition, val) # pairs) self = when_all pairs (when_op condition val self)"

definition build :: "(bool \<times> pyval) list \<Rightarrow> pyval option \<Rightarrow> conditions" where
  "build pairs default_arg =
     (case default_arg of
        None \<Rightarrow> when_all pairs Conditions_init
      | Some d \<Rightarrow> default_op d (when_all pairs Conditions_init))"

section \<open>Trusted text\<close>

text \<open>
  Modelled from the spec: \<^verbatim>\<open>escape\<close> belongs to the library markupsafe, which is not
  among the sources. The spec says that it "escapes HTML metacharacters (\<open>&\<close>, \<open><\<close>, \<open>>\<close>,
  quotes)" of a text and wraps the result as trusted text; the entities are the library's
  (\<open>&amp;\<close>, \<open>&lt;\<close>, \<open>&gt;\<close>, \<open>&#39;\<close> for the single quote \<open>CHR 0x27\<close> and \<open>&#34;\<close> for
  the double quote \<open>CHR 0x22\<close>).
\<close>

definition escape_char :: "char \<Rightarrow> string" where
  "escape_char c =
     (if c = CHR ''&'' then ''&amp;''
      else if c = CHR ''>'' then ''&gt;''
      else if c = CHR ''<'' then ''&lt;''
      else if c = CHR 0x27 then ''&#39;''
      else if c = CHR 0x22 then ''&#34;''
      else [c])"

definition escape_text :: "string \<Rightarrow> string" where
  "escape_text s = concat (map escape_char s)"

definition escape :: "string \<Rightarrow> pyval" where
  "escape s = PMarkup (escape_text s)"

text \<open>
  Modelled from the spec: the protocol \<^verbatim>\<open>HasHTMLDunder\<close> is declared in
  \<^verbatim>\<open>tdom/processor.py\<close>, which is not among the sources. The spec says that a value
  matches when it "exposes the rendering-capability hook (a zero-argument method producing
  a string)". \<open>html_hook\<close> is the call \<^verbatim>\<open>result.__html__()\<close>.
\<close>

fun has_html_dunder :: "pyval \<Rightarrow> bool" where
  "has_html_dunder (PMarkup s) = True"
| "has_html_dunder (PHtmlObj h r) = True"
| "has_html_dunder v = False"

fun html_hook :: "pyval \<Rightarrow> string result" where
  "html_hook (PMarkup s) = (Inr s, [])"
| "html_hook (PHtmlObj h r) = (r, [h])"
| "html_hook v = (Inl (PyExn ''AttributeError''), [])"

text \<open>
  Python's builtin \<^verbatim>\<open>str\<close>. The text of an object that is neither \<^verbatim>\<open>None\<close>, a
  \<^verbatim>\<open>bool\<close> nor a string depends on the object (its \<^verbatim>\<open>__str__\<close>, or its address in
  memory): it is the parameter \<open>obj_str\<close>. The call runs the object's \<^verbatim>\<open>__str__\<close>, which
  may raise: \<open>obj_str\<close> gives either the exception or the text.
\<close>

fun py_str :: "(pyval \<Rightarrow> pyexn + string) \<Rightarrow> pyval \<Rightarrow> pyexn + string" where
  "py_str obj_str PNone = Inr ''None''"
| "py_str obj_str (PBool b) = Inr (if b then ''True'' else ''False'')"
| "py_str obj_str (PStr s) = Inr s"
| "py_str obj_str (PMarkup s) = Inr s"
| "py_str obj_str v = obj_str v"

text \<open>
  \<^verbatim>\<open>_to_markup\<close>: the three cases of the \<^verbatim>\<open>match\<close>, in the order of the source. In
  the last one, \<^verbatim>\<open>escape(str(result))\<close>, an exception of \<^verbatim>\<open>str\<close> leaves the function.
\<close>

definition to_markup :: "(pyval \<Rightarrow> pyexn + string) \<Rightarrow> pyval \<Rightarrow> pyval result" where
  "to_markup obj_str result =
     (if result = PNone then (Inr (PMarkup []), [])
      else if has_html_dunder result then
        (case html_hook result of
           (Inl e, log) \<Rightarrow> (Inl e, log)
         | (Inr s, log) \<Rightarrow> (Inr (PMarkup s), log))
      else
        (case py_str obj_str result of
           Inl e \<Rightarrow> (Inl e, [])
         | Inr s \<Rightarrow> (Inr (escape s), [])))"

text \<open>\<^verbatim>\<open>Conditions.__html__\<close>: \<^verbatim>\<open>return _to_markup(self._resolve())\<close>.\<close>

definition html_dunder :: "(pyval \<Rightarrow> pyexn + string) \<Rightarrow> conditions \<Rightarrow> pyval result" where
  "html_dunder obj_str self =
     (case resolve self of
        (Inl e, log) \<Rightarrow> (Inl e, log)
      | (Inr v, log) \<Rightarrow>
          (case to_markup obj_str v of (m, log') \<Rightarrow> (m, log @ log')))"

text \<open>
  Two sample \<open>obj_str\<close>, for evaluating at concrete inputs: one for objects whose
  \<^verbatim>\<open>__str__\<close> returns a text, one for objects whose \<^verbatim>\<open>__str__\<close> raises.
\<close>

definition sample_str :: "pyval \<Rightarrow> pyexn + string" where
  "sample_str v = Inr ''<object>''"

definition raising_str :: "pyval \<Rightarrow> pyexn + string" where
  "raising_str v = Inl (PyExn ''boom'')"

section \<open>Sequences of builder calls\<close>

text \<open>
  The calls a caller can make on an instance before resolving it, and an instance after a
  sequence of them.
\<close>

datatype builder_call = When bool pyval | Default pyval

fun apply_call :: "conditions \<Rightarrow> builder_call \<Rightarrow> conditions" where
  "apply_call self (When condition val) = when_op condition val self"
| "apply_call self (Default val) = default_op val self"

definition apply_calls :: "conditions \<Rightarrow> builder_call list \<Rightarrow> conditions" where
  "apply_calls self cs = foldl apply_call self cs"

text \<open>
  The sentinel is private to the module: what a caller passes in is not the sentinel, and
  no callable of the caller returns it. \<open>gives_unset v\<close> says that \<open>v\<close> breaks this.
\<close>

fun returns_unset :: "pyval \<Rightarrow> bool" where
  "returns_unset (PCallable k (Inr UNSET)) = True"
| "returns_unset v = False"

definition gives_unset :: "pyval \<Rightarrow> bool" where
  "gives_unset v = (v = UNSET \<or> returns_unset v)"

fun call_value :: "builder_call \<Rightarrow> pyval" where
  "call_value (When condition val) = val"
| "call_value (Default val) = val"

definition sentinel_free :: "builder_call list \<Rightarrow> bool" where
  "sentinel_free cs = (filter (\<lambda>c. gives_unset (call_value c)) cs = [])"

section \<open>Which branch is selected\<close>

text \<open>
  \<open>first_truthy cs pre v post\<close>: the branch with value \<open>v\<close> is the first one of \<open>cs\<close> whose
  condition holds; \<open>pre\<close> are the branches before it, \<open>post\<close> the ones after it, about which
  nothing is said. \<open>none_truthy cs\<close>: no condition of \<open>cs\<close> holds.
\<close>

definition none_truthy :: "(bool \<times> pyval) list \<Rightarrow> bool" where
  "none_truthy cs = (filter fst cs = [])"

definition first_truthy ::
  "(bool \<times> pyval) list \<Rightarrow> (bool \<times> pyval) list \<Rightarrow> pyval \<Rightarrow> (bool \<times> pyval) list \<Rightarrow> bool" where
  "first_truthy cs pre v post = (cs = pre @ (True, v) # post \<and> none_truthy pre)"

text \<open>
  What \<open>cond\<close> is given when the caller does not hold the sentinel: no value among the
  pairs and no default gives it.
\<close>

definition args_sentinel_free :: "(bool \<times> pyval) list \<Rightarrow> pyval option \<Rightarrow> bool" where
  "args_sentinel_free pairs default_arg =
     (filter (\<lambda>p. gives_unset (snd p)) pairs = []
      \<and> (case default_arg of None \<Rightarrow> True | Some d \<Rightarrow> \<not> gives_unset d))"

section \<open>The scan\<close>

text \<open>A list of branches either has a first branch whose condition holds, or has none.\<close>

lemma first_or_none:
  "(\<exists>pre v post. first_truthy cs pre v post) \<or> none_truthy cs"
proof (induction cs)
  case Nil
  then show ?case by (simp add: none_truthy_def)
next
  case (Cons a cs)
  obtain b x where a: "a = (b, x)" by (cases a)
  show ?case
  proof (cases b)
    case True
    then have "first_truthy (a # cs) [] x cs"
      by (simp add: a first_truthy_def none_truthy_def)
    then show ?thesis by blast
  next
    case False
    from Cons show ?thesis
    proof
      assume "\<exists>pre v post. first_truthy cs pre v post"
      then obtain pre v post where "first_truthy cs pre v post" by blast
      then have "first_truthy (a # cs) (a # pre) v post"
        using False by (simp add: a first_truthy_def none_truthy_def)
      then show ?thesis by blast
    next
      assume "none_truthy cs"
      then have "none_truthy (a # cs)"
        using False by (simp add: a none_truthy_def)
      then show ?thesis by blast
    qed
  qed
qed

lemma resolve_loop_skip:
  "none_truthy pre \<Longrightarrow> resolve_loop (pre @ rest) d = resolve_loop rest d"
  by (induction pre) (auto simp: none_truthy_def split: if_splits)

lemma cond_loop_skip:
  "none_truthy pre \<Longrightarrow> cond_loop (pre @ rest) d = cond_loop rest d"
  by (induction pre) (auto simp: none_truthy_def split: if_splits)

lemma resolve_loop_first:
  "first_truthy cs pre v post \<Longrightarrow> resolve_loop cs d = resolve_value v"
  by (simp add: first_truthy_def resolve_loop_skip)

lemma cond_loop_first:
  "first_truthy cs pre v post \<Longrightarrow> cond_loop cs d = resolve_value v"
  by (simp add: first_truthy_def cond_loop_skip)

lemma resolve_loop_none:
  "none_truthy cs \<Longrightarrow>
   resolve_loop cs d = (if d \<noteq> UNSET then resolve_value d else (Inr PNone, []))"
  using resolve_loop_skip [of cs "[]" d] by simp

lemma cond_loop_none:
  "none_truthy cs \<Longrightarrow>
   cond_loop cs d = (if d \<noteq> UNSET then resolve_value d else (Inr PNone, []))"
  using cond_loop_skip [of cs "[]" d] by simp

lemma cond_loop_resolve_loop: "cond_loop cs d = resolve_loop cs d"
  by (induction cs) auto

text \<open>What the builder calls leave in the two slots.\<close>

lemma c_cases_when_all: "c_cases (when_all pairs self) = c_cases self @ pairs"
  by (induction pairs arbitrary: self) (auto simp: when_op_def)

lemma c_default_when_all: "c_default (when_all pairs self) = c_default self"
  by (induction pairs arbitrary: self) (auto simp: when_op_def)

lemma c_cases_build: "c_cases (build pairs default_arg) = pairs"
  by (simp add: build_def default_op_def Conditions_init_def c_cases_when_all
      split: option.splits)

lemma c_default_build:
  "c_default (build pairs default_arg) = (case default_arg of None \<Rightarrow> UNSET | Some d \<Rightarrow> d)"
  by (simp add: build_def default_op_def Conditions_init_def c_default_when_all
      split: option.splits)

lemma build_covers: "build (c_cases self) (Some (c_default self)) = self"
  by (simp add: build_def default_op_def c_cases_when_all c_default_when_all Conditions_init_def)

text \<open>Resolution in terms of the selected value.\<close>

lemma resolve_value_callable: "resolve_value (PCallable k r) = (r, [k])"
  by (simp add: resolve_value_def)

lemma resolve_value_plain: "\<not> callable v \<Longrightarrow> resolve_value v = (Inr v, [])"
  by (simp add: resolve_value_def)

lemma resolve_first: "first_truthy (c_cases self) pre v post \<Longrightarrow> resolve self = resolve_value v"
  by (simp add: resolve_def resolve_loop_first)

lemma resolve_none:
  "none_truthy (c_cases self) \<Longrightarrow>
   resolve self = (if c_default self \<noteq> UNSET then resolve_value (c_default self)
                   else (Inr PNone, []))"
  by (simp add: resolve_def resolve_loop_none)

lemma cond_first: "first_truthy pairs pre v post \<Longrightarrow> cond pairs default_arg = resolve_value v"
  by (simp add: cond_def cond_loop_first)

lemma cond_none_Some:
  "none_truthy pairs \<Longrightarrow>
   cond pairs (Some d) = (if d \<noteq> UNSET then resolve_value d else (Inr PNone, []))"
  by (simp add: cond_def cond_loop_none)

lemma cond_none_None: "none_truthy pairs \<Longrightarrow> cond pairs None = (Inr PNone, [])"
  by (simp add: cond_def cond_loop_none)

lemma resolve_build: "resolve (build cs default_arg) = cond cs default_arg"
  by (simp add: cond_def resolve_def c_cases_build c_default_build cond_loop_resolve_loop)

lemma selected_resolves:
  "first_truthy cs pre v post \<or> (none_truthy cs \<and> default_arg = Some v \<and> v \<noteq> UNSET) \<Longrightarrow>
   cond cs default_arg = resolve_value v"
  by (auto simp: cond_first cond_none_Some)

section \<open>First match\<close>

text \<open>
  C1. Whatever branches were appended with \<open>when\<close> (or passed to \<open>cond\<close>), if the branch
  with value \<open>v\<close> is the first whose condition holds, then resolution returns the result of
  calling \<open>v\<close> when \<open>v\<close> is callable and \<open>v\<close> itself otherwise. The later branches \<open>post\<close>
  are arbitrary, so any number of them may hold as well, and the default plays no part.
  This holds for every instance with these branches, for the instance built by calling
  \<open>when\<close> for each of them, and for \<open>cond\<close>.
\<close>

theorem first_truthy_branch_wins:
  assumes "first_truthy cs pre v post"
  shows "(c_cases self = cs \<longrightarrow>
            outcome (resolve self) = (if callable v then outcome (call v) else Inr v))
       \<and> outcome (resolve (build cs default_arg))
            = (if callable v then outcome (call v) else Inr v)
       \<and> outcome (cond cs default_arg) = (if callable v then outcome (call v) else Inr v)"
proof -
  have v: "outcome (resolve_value v) = (if callable v then outcome (call v) else Inr v)"
    by (simp add: resolve_value_def outcome_def)
  have "c_cases self = cs \<Longrightarrow> resolve self = resolve_value v"
    using assms by (simp add: resolve_def resolve_loop_first)
  moreover have "resolve (build cs default_arg) = resolve_value v"
    using assms by (simp add: resolve_def c_cases_build resolve_loop_first)
  moreover have "cond cs default_arg = resolve_value v"
    using assms by (simp add: cond_def cond_loop_first)
  ultimately show ?thesis
    using v by simp
qed

theorem first_truthy_branch_wins_witness:
  "first_truthy [(False, PStr ''a''), (True, PCallable 7 (Inr (PStr ''b''))), (True, PStr ''c'')]
     [(False, PStr ''a'')] (PCallable 7 (Inr (PStr ''b''))) [(True, PStr ''c'')]
   \<and> c_cases (when_op True (PStr ''c'') (when_op True (PCallable 7 (Inr (PStr ''b'')))
        (default_op (PStr ''d'') (when_op False (PStr ''a'') Conditions_init))))
       = [(False, PStr ''a''), (True, PCallable 7 (Inr (PStr ''b''))), (True, PStr ''c'')]
   \<and> outcome (resolve (when_op True (PStr ''c'') (when_op True (PCallable 7 (Inr (PStr ''b'')))
        (default_op (PStr ''d'') (when_op False (PStr ''a'') Conditions_init)))))
       = Inr (PStr ''b'')
   \<and> outcome (resolve (build
        [(False, PStr ''a''), (True, PCallable 7 (Inr (PStr ''b''))), (True, PStr ''c'')]
        (Some (PStr ''d'')))) = Inr (PStr ''b'')
   \<and> outcome (cond
        [(False, PStr ''a''), (True, PCallable 7 (Inr (PStr ''b''))), (True, PStr ''c'')]
        (Some (PStr ''d''))) = Inr (PStr ''b'')"
proof -
  have f: "first_truthy
      [(False, PStr ''a''), (True, PCallable 7 (Inr (PStr ''b''))), (True, PStr ''c'')]
      [(False, PStr ''a'')] (PCallable 7 (Inr (PStr ''b''))) [(True, PStr ''c'')]"
    by (simp add: first_truthy_def none_truthy_def)
  have c: "c_cases (when_op True (PStr ''c'') (when_op True (PCallable 7 (Inr (PStr ''b'')))
        (default_op (PStr ''d'') (when_op False (PStr ''a'') Conditions_init))))
       = [(False, PStr ''a''), (True, PCallable 7 (Inr (PStr ''b''))), (True, PStr ''c'')]"
    by (simp add: when_op_def default_op_def Conditions_init_def)
  have v: "(if callable (PCallable 7 (Inr (PStr ''b'')))
            then outcome (call (PCallable 7 (Inr (PStr ''b''))))
            else Inr (PCallable 7 (Inr (PStr ''b'')))) = Inr (PStr ''b'')"
    by (simp add: outcome_def)
  from f c first_truthy_branch_wins [OF f,
      of "when_op True (PStr ''c'') (when_op True (PCallable 7 (Inr (PStr ''b'')))
        (default_op (PStr ''d'') (when_op False (PStr ''a'') Conditions_init)))"
      "Some (PStr ''d'')"]
  show ?thesis
    by (simp only: v simp_thms)
qed

section \<open>Conversion to trusted text\<close>

lemma escape_text_Nil: "escape_text [] = []"
  by (simp add: escape_text_def)

lemma escape_text_Cons: "escape_text (c # s) = escape_char c @ escape_text s"
  by (simp add: escape_text_def)

lemma escape_char_safe:
  "set (escape_char c) \<inter> {CHR ''<'', CHR ''>'', CHR 0x22, CHR 0x27} = {}"
  by (simp add: escape_char_def)

lemma escape_text_safe:
  "set (escape_text s) \<inter> {CHR ''<'', CHR ''>'', CHR 0x22, CHR 0x27} = {}"
  using escape_char_safe by (induction s) (auto simp: escape_text_def)

lemma to_markup_is_markup: "outcome (to_markup f v) = Inr m \<Longrightarrow> \<exists>s. m = PMarkup s"
  by (auto simp: to_markup_def outcome_def escape_def split: if_splits prod.splits sum.splits)

lemma html_dunder_is_markup:
  assumes "outcome (html_dunder f self) = Inr m"
  shows "\<exists>s. m = PMarkup s"
proof -
  obtain r log where r: "resolve self = (r, log)"
    by (cases "resolve self")
  show ?thesis
  proof (cases r)
    case (Inl e)
    with r assms show ?thesis
      by (simp add: html_dunder_def outcome_def)
  next
    case (Inr v)
    with r assms have "outcome (to_markup f v) = Inr m"
      by (simp add: html_dunder_def outcome_def split: prod.splits)
    then show ?thesis
      by (rule to_markup_is_markup)
  qed
qed

lemma to_markup_raises:
  assumes "outcome (to_markup f v) = Inl e"
  shows "(\<exists>h. v = PHtmlObj h (Inl e))
       \<or> (v \<noteq> PNone \<and> \<not> has_html_dunder v \<and> py_str f v = Inl e)"
proof (cases "v = PNone")
  case True
  with assms show ?thesis
    by (simp add: to_markup_def outcome_def)
next
  case False
  show ?thesis
  proof (cases "has_html_dunder v")
    case True
    with False assms show ?thesis
      by (cases v) (auto simp: to_markup_def outcome_def split: sum.splits)
  next
    case hook: False
    with False assms have "py_str f v = Inl e"
      by (auto simp: to_markup_def outcome_def split: sum.splits)
    with False hook show ?thesis
      by simp
  qed
qed

lemma html_dunder_returns:
  "resolve self = (Inr v, log) \<Longrightarrow>
   html_dunder f self = (outcome (to_markup f v), log @ calls (to_markup f v))"
  by (simp add: html_dunder_def outcome_def calls_def split: prod.splits)

lemma html_dunder_raises:
  assumes "outcome (html_dunder f self) = Inl e"
  shows "outcome (resolve self) = Inl e
       \<or> (\<exists>h. outcome (resolve self) = Inr (PHtmlObj h (Inl e)))
       \<or> (\<exists>v. outcome (resolve self) = Inr v \<and> v \<noteq> PNone \<and> \<not> has_html_dunder v
              \<and> py_str f v = Inl e)"
proof -
  obtain r log where r: "resolve self = (r, log)"
    by (cases "resolve self")
  show ?thesis
  proof (cases r)
    case (Inl e')
    with r assms show ?thesis
      by (simp add: html_dunder_def outcome_def)
  next
    case (Inr v)
    with r assms have "outcome (to_markup f v) = Inl e"
      by (simp add: html_dunder_def outcome_def split: prod.splits)
    then have "(\<exists>h. v = PHtmlObj h (Inl e))
       \<or> (v \<noteq> PNone \<and> \<not> has_html_dunder v \<and> py_str f v = Inl e)"
      by (rule to_markup_raises)
    with r Inr show ?thesis
      by (auto simp: outcome_def)
  qed
qed

text \<open>
  C2. \<open>_to_markup\<close> on plain data: a string \<open>s\<close> becomes the trusted text \<open>escape_text s\<close>,
  in which none of \<open><\<close>, \<open>>\<close>, the double quote and the single quote is left, and each of
  \<open>&\<close>, \<open><\<close>, \<open>>\<close> and the two quotes has been replaced by its entity; so \<open><b>\<close> becomes
  \<open>&lt;b&gt;\<close>. \<open>None\<close> becomes the empty trusted text. A value with the rendering hook is
  not escaped: trusted text comes back unchanged, and for any other such object the string
  its hook returns is wrapped as it is.
\<close>

theorem to_markup_escapes_plain_data:
  "to_markup f (PStr s) = (Inr (PMarkup (escape_text s)), [])
   \<and> set (escape_text s) \<inter> {CHR ''<'', CHR ''>'', CHR 0x22, CHR 0x27} = {}
   \<and> escape_text (CHR ''&'' # s) = ''&amp;'' @ escape_text s
   \<and> escape_text (CHR ''<'' # s) = ''&lt;'' @ escape_text s
   \<and> escape_text (CHR ''>'' # s) = ''&gt;'' @ escape_text s
   \<and> escape_text (CHR 0x27 # s) = ''&#39;'' @ escape_text s
   \<and> escape_text (CHR 0x22 # s) = ''&#34;'' @ escape_text s
   \<and> to_markup f (PStr ''<b>'') = (Inr (PMarkup ''&lt;b&gt;''), [])
   \<and> to_markup f (PBool True) = (Inr (PMarkup ''True''), [])
   \<and> to_markup f (PObj n) =
        (case f (PObj n) of
           Inl e \<Rightarrow> (Inl e, [])
         | Inr t \<Rightarrow> (Inr (PMarkup (escape_text t)), []))
   \<and> to_markup f PNone = (Inr (PMarkup ''''), [])
   \<and> to_markup f (PMarkup s) = (Inr (PMarkup s), [])
   \<and> to_markup f (PHtmlObj h (Inr s)) = (Inr (PMarkup s), [h])"
  by (simp add: to_markup_def escape_def escape_text_safe escape_text_Nil escape_text_Cons
      escape_char_def split: sum.splits)

section \<open>Laziness\<close>

lemma resolve_value_calls_le: "length (calls (resolve_value v)) \<le> 1"
  by (cases v) (auto simp: resolve_value_def calls_def)

lemma cond_calls_le: "length (calls (cond cs default_arg)) \<le> 1"
proof -
  from first_or_none [of cs] show ?thesis
  proof
    assume "\<exists>pre v post. first_truthy cs pre v post"
    then obtain pre v post where "first_truthy cs pre v post"
      by blast
    then have "cond cs default_arg = resolve_value v"
      by (rule cond_first)
    then show ?thesis
      by (simp only: resolve_value_calls_le)
  next
    assume n: "none_truthy cs"
    show ?thesis
    proof (cases default_arg)
      case None
      with n show ?thesis
        by (simp add: cond_none_None calls_def)
    next
      case (Some d)
      with n have "cond cs default_arg = resolve_value d \<or> cond cs default_arg = (Inr PNone, [])"
        by (simp add: cond_none_Some)
      then show ?thesis
        using resolve_value_calls_le [of d] by (auto simp: calls_def)
    qed
  qed
qed

text \<open>
  C3. One resolution of an instance, or one call of \<open>cond\<close>, calls at most one callable.
  When \<open>v\<close> is the selected value (the value of the first branch whose condition holds, or
  the default when no condition holds and a default was given): if \<open>v\<close> is the callable
  \<open>k\<close>, the list of calls made is exactly \<open>[k]\<close>, so \<open>k\<close> is called once and no callable of
  a skipped branch, of a later branch or of an unselected default is called; if \<open>v\<close> is not
  callable, nothing is called. When nothing is selected, nothing is called.
\<close>

theorem only_selected_callable_invoked:
  "(first_truthy cs pre v post \<or> (none_truthy cs \<and> default_arg = Some v \<and> v \<noteq> UNSET) \<longrightarrow>
      (v = PCallable k r \<longrightarrow>
          calls (cond cs default_arg) = [k] \<and> calls (resolve (build cs default_arg)) = [k])
      \<and> (\<not> callable v \<longrightarrow>
          calls (cond cs default_arg) = [] \<and> calls (resolve (build cs default_arg)) = []))
   \<and> (none_truthy cs \<longrightarrow> calls (cond cs None) = [] \<and> calls (resolve (build cs None)) = [])
   \<and> length (calls (cond cs default_arg)) \<le> 1
   \<and> length (calls (resolve (build cs default_arg))) \<le> 1"
proof -
  have 1: "first_truthy cs pre v post \<or> (none_truthy cs \<and> default_arg = Some v \<and> v \<noteq> UNSET) \<longrightarrow>
      (v = PCallable k r \<longrightarrow>
          calls (cond cs default_arg) = [k] \<and> calls (resolve (build cs default_arg)) = [k])
      \<and> (\<not> callable v \<longrightarrow>
          calls (cond cs default_arg) = [] \<and> calls (resolve (build cs default_arg)) = [])"
    using selected_resolves [of cs pre v post default_arg]
    by (auto simp: resolve_build resolve_value_def calls_def)
  have 2: "none_truthy cs \<longrightarrow> calls (cond cs None) = [] \<and> calls (resolve (build cs None)) = []"
    by (simp add: resolve_build cond_none_None calls_def)
  have 3: "length (calls (cond cs default_arg)) \<le> 1"
    by (rule cond_calls_le)
  then have 4: "length (calls (resolve (build cs default_arg))) \<le> 1"
    by (simp only: resolve_build)
  from 1 2 3 4 show ?thesis by blast
qed

theorem only_selected_callable_invoked_witness:
  "first_truthy
     [(False, PCallable 1 (Inr (PStr ''a''))), (True, PCallable 2 (Inr (PStr ''b''))),
      (True, PCallable 3 (Inr (PStr ''c'')))]
     [(False, PCallable 1 (Inr (PStr ''a'')))] (PCallable 2 (Inr (PStr ''b'')))
     [(True, PCallable 3 (Inr (PStr ''c'')))]
   \<and> calls (cond
        [(False, PCallable 1 (Inr (PStr ''a''))), (True, PCallable 2 (Inr (PStr ''b''))),
         (True, PCallable 3 (Inr (PStr ''c'')))]
        (Some (PCallable 4 (Inr (PStr ''d''))))) = [2]
   \<and> calls (resolve (build
        [(False, PCallable 1 (Inr (PStr ''a''))), (True, PCallable 2 (Inr (PStr ''b''))),
         (True, PCallable 3 (Inr (PStr ''c'')))]
        (Some (PCallable 4 (Inr (PStr ''d'')))))) = [2]
   \<and> none_truthy [(False, PCallable 1 (Inr (PStr ''a'')))]
   \<and> \<not> callable (PStr ''d'')
   \<and> calls (cond [(False, PCallable 1 (Inr (PStr ''a'')))] (Some (PStr ''d''))) = []
   \<and> calls (cond [(False, PCallable 1 (Inr (PStr ''a'')))] None) = []"
  using only_selected_callable_invoked
    [of "[(False, PCallable 1 (Inr (PStr ''a''))), (True, PCallable 2 (Inr (PStr ''b''))),
          (True, PCallable 3 (Inr (PStr ''c'')))]"
        "[(False, PCallable 1 (Inr (PStr ''a'')))]" "PCallable 2 (Inr (PStr ''b''))"
        "[(True, PCallable 3 (Inr (PStr ''c'')))]" "Some (PCallable 4 (Inr (PStr ''d'')))"
        2 "Inr (PStr ''b'')"]
    only_selected_callable_invoked
    [of "[(False, PCallable 1 (Inr (PStr ''a'')))]" "[]" "PStr ''d''" "[]" "Some (PStr ''d'')"]
  by (simp add: first_truthy_def none_truthy_def)

section \<open>No branch matches\<close>

text \<open>
  C4. For an instance none of whose conditions holds: if its default slot holds the
  callable \<open>k\<close>, resolution gives the outcome of calling \<open>k\<close>, once; if it holds any other
  value that is not the sentinel, resolution gives that value as it is, with no call: a
  string gives the string, \<open>None\<close> gives \<open>None\<close> and \<open>False\<close> gives \<open>False\<close>. If the slot
  still holds the sentinel (no default was set), resolution gives \<open>None\<close>, which the
  rendering hook, like \<open>_to_markup\<close>, turns into the empty trusted text. \<open>cond\<close> does the
  same with its optional argument.
\<close>

theorem no_match_gives_default_or_none:
  assumes "none_truthy (c_cases self)"
  shows "(c_default self = PCallable k r \<longrightarrow> resolve self = (r, [k]))
       \<and> (c_default self \<noteq> UNSET \<and> \<not> callable (c_default self) \<longrightarrow>
            resolve self = (Inr (c_default self), []))
       \<and> (c_default self = PStr s \<longrightarrow> resolve self = (Inr (PStr s), []))
       \<and> (c_default self = PNone \<longrightarrow> resolve self = (Inr PNone, []))
       \<and> (c_default self = PBool False \<longrightarrow> resolve self = (Inr (PBool False), []))
       \<and> (c_default self = UNSET \<longrightarrow>
            resolve self = (Inr PNone, []) \<and> html_dunder f self = (Inr (PMarkup []), []))
       \<and> cond (c_cases self) (Some (PCallable k r)) = (r, [k])
       \<and> (d \<noteq> UNSET \<and> \<not> callable d \<longrightarrow> cond (c_cases self) (Some d) = (Inr d, []))
       \<and> cond (c_cases self) (Some (PStr s)) = (Inr (PStr s), [])
       \<and> cond (c_cases self) (Some PNone) = (Inr PNone, [])
       \<and> cond (c_cases self) (Some (PBool False)) = (Inr (PBool False), [])
       \<and> cond (c_cases self) None = (Inr PNone, [])
       \<and> to_markup f PNone = (Inr (PMarkup []), [])"
proof -
  have r: "resolve self = (if c_default self \<noteq> UNSET then resolve_value (c_default self)
                           else (Inr PNone, []))"
    using assms by (rule resolve_none)
  have c: "\<And>x. cond (c_cases self) (Some x)
             = (if x \<noteq> UNSET then resolve_value x else (Inr PNone, []))"
    using assms by (rule cond_none_Some)
  have 1: "c_default self = PCallable k r \<longrightarrow> resolve self = (r, [k])"
    by (simp add: r resolve_value_def)
  have 2: "c_default self \<noteq> UNSET \<and> \<not> callable (c_default self) \<longrightarrow>
            resolve self = (Inr (c_default self), [])"
    by (simp add: r resolve_value_def)
  have 3: "c_default self = PStr s \<longrightarrow> resolve self = (Inr (PStr s), [])"
    by (simp add: r resolve_value_def)
  have 4: "c_default self = PNone \<longrightarrow> resolve self = (Inr PNone, [])"
    by (simp add: r resolve_value_def)
  have 5: "c_default self = PBool False \<longrightarrow> resolve self = (Inr (PBool False), [])"
    by (simp add: r resolve_value_def)
  have 6: "c_default self = UNSET \<longrightarrow>
            resolve self = (Inr PNone, []) \<and> html_dunder f self = (Inr (PMarkup []), [])"
    by (simp add: r html_dunder_def to_markup_def)
  have 7: "cond (c_cases self) (Some (PCallable k r)) = (r, [k])"
    by (simp add: c resolve_value_def)
  have 8: "d \<noteq> UNSET \<and> \<not> callable d \<longrightarrow> cond (c_cases self) (Some d) = (Inr d, [])"
    by (simp add: c resolve_value_def)
  have 9: "cond (c_cases self) (Some (PStr s)) = (Inr (PStr s), [])"
    by (simp add: c resolve_value_def)
  have 10: "cond (c_cases self) (Some PNone) = (Inr PNone, [])"
    by (simp add: c resolve_value_def)
  have 11: "cond (c_cases self) (Some (PBool False)) = (Inr (PBool False), [])"
    by (simp add: c resolve_value_def)
  have 12: "cond (c_cases self) None = (Inr PNone, [])"
    using assms by (rule cond_none_None)
  have 13: "to_markup f PNone = (Inr (PMarkup []), [])"
    by (simp add: to_markup_def)
  from 1 2 3 4 5 6 7 8 9 10 11 12 13 show ?thesis
    by blast
qed

theorem no_match_gives_default_or_none_witness:
  "none_truthy (c_cases (build [(False, PStr ''a'')] (Some (PCallable 4 (Inr (PStr ''d''))))))
   \<and> resolve (build [(False, PStr ''a'')] (Some (PCallable 4 (Inr (PStr ''d'')))))
       = (Inr (PStr ''d''), [4])
   \<and> cond [(False, PStr ''a'')] (Some (PCallable 4 (Inr (PStr ''d'')))) = (Inr (PStr ''d''), [4])
   \<and> none_truthy (c_cases (build [(False, PStr ''a'')] (Some (PStr ''x''))))
   \<and> resolve (build [(False, PStr ''a'')] (Some (PStr ''x''))) = (Inr (PStr ''x''), [])
   \<and> cond [(False, PStr ''a'')] (Some (PStr ''x'')) = (Inr (PStr ''x''), [])
   \<and> none_truthy (c_cases (build [(False, PStr ''a'')] (Some PNone)))
   \<and> resolve (build [(False, PStr ''a'')] (Some PNone)) = (Inr PNone, [])
   \<and> none_truthy (c_cases (build [(False, PStr ''a'')] (Some (PBool False))))
   \<and> resolve (build [(False, PStr ''a'')] (Some (PBool False))) = (Inr (PBool False), [])
   \<and> cond [(False, PStr ''a'')] (Some (PBool False)) = (Inr (PBool False), [])
   \<and> none_truthy (c_cases (build [(False, PStr ''a'')] None))
   \<and> c_default (build [(False, PStr ''a'')] None) = UNSET
   \<and> resolve (build [(False, PStr ''a'')] None) = (Inr PNone, [])
   \<and> html_dunder sample_str (build [(False, PStr ''a'')] None) = (Inr (PMarkup []), [])"
proof -
  have cs: "\<And>d. c_cases (build [(False, PStr ''a'')] d) = [(False, PStr ''a'')]"
    by (simp add: c_cases_build)
  have n: "\<And>d. none_truthy (c_cases (build [(False, PStr ''a'')] d))"
    by (simp add: c_cases_build none_truthy_def)
  have d1: "c_default (build [(False, PStr ''a'')] (Some (PCallable 4 (Inr (PStr ''d'')))))
      = PCallable 4 (Inr (PStr ''d''))"
    by (simp add: c_default_build)
  have d2: "c_default (build [(False, PStr ''a'')] (Some (PStr ''x''))) = PStr ''x''"
    by (simp add: c_default_build)
  have d3: "c_default (build [(False, PStr ''a'')] (Some PNone)) = PNone"
    by (simp add: c_default_build)
  have d4: "c_default (build [(False, PStr ''a'')] (Some (PBool False))) = PBool False"
    by (simp add: c_default_build)
  have d5: "c_default (build [(False, PStr ''a'')] None) = UNSET"
    by (simp add: c_default_build)
  have x: "PStr ''x'' \<noteq> UNSET \<and> \<not> callable (PStr ''x'')"
    by simp
  have n0: "none_truthy [(False, PStr ''a'')]"
    by (simp add: none_truthy_def)
  note t1 = no_match_gives_default_or_none
    [of "build [(False, PStr ''a'')] (Some (PCallable 4 (Inr (PStr ''d''))))" 4
       "Inr (PStr ''d'')" "''x''" sample_str "PStr ''x''", unfolded cs]
  note t2 = no_match_gives_default_or_none
    [of "build [(False, PStr ''a'')] (Some (PStr ''x''))" 4 "Inr (PStr ''d'')" "''x''"
       sample_str "PStr ''x''", unfolded cs]
  note t3 = no_match_gives_default_or_none
    [of "build [(False, PStr ''a'')] (Some PNone)" 4 "Inr (PStr ''d'')" "''x''" sample_str
       "PStr ''x''", unfolded cs]
  note t4 = no_match_gives_default_or_none
    [of "build [(False, PStr ''a'')] (Some (PBool False))" 4 "Inr (PStr ''d'')" "''x''"
       sample_str "PStr ''x''", unfolded cs]
  note t5 = no_match_gives_default_or_none
    [of "build [(False, PStr ''a'')] None" 4 "Inr (PStr ''d'')" "''x''" sample_str
       "PStr ''x''", unfolded cs]
  from d1 t1 [OF n0]
  have a1: "resolve (build [(False, PStr ''a'')] (Some (PCallable 4 (Inr (PStr ''d'')))))
       = (Inr (PStr ''d''), [4])
     \<and> cond [(False, PStr ''a'')] (Some (PCallable 4 (Inr (PStr ''d''))))
       = (Inr (PStr ''d''), [4])"
    by blast
  from d2 x t2 [OF n0]
  have a2: "resolve (build [(False, PStr ''a'')] (Some (PStr ''x''))) = (Inr (PStr ''x''), [])
     \<and> cond [(False, PStr ''a'')] (Some (PStr ''x'')) = (Inr (PStr ''x''), [])"
    by blast
  from d3 t3 [OF n0]
  have a3: "resolve (build [(False, PStr ''a'')] (Some PNone)) = (Inr PNone, [])"
    by blast
  from d4 t4 [OF n0]
  have a4: "resolve (build [(False, PStr ''a'')] (Some (PBool False))) = (Inr (PBool False), [])
     \<and> cond [(False, PStr ''a'')] (Some (PBool False)) = (Inr (PBool False), [])"
    by blast
  from d5 t5 [OF n0]
  have a5: "resolve (build [(False, PStr ''a'')] None) = (Inr PNone, [])
     \<and> html_dunder sample_str (build [(False, PStr ''a'')] None) = (Inr (PMarkup []), [])"
    by blast
  from n d5 a1 a2 a3 a4 a5 show ?thesis
    by simp
qed

section \<open>The function and the builder agree\<close>

text \<open>
  C5. For every list of pairs and every optional default, \<open>cond\<close> returns what resolving
  the instance returns that was built from a fresh one by calling \<open>when\<close> for each pair in
  order and then \<open>default\<close> when a default is given: the same outcome and the same calls.
\<close>

theorem cond_is_build_then_resolve:
  "cond pairs default_arg = resolve (build pairs default_arg)"
proof -
  let ?d = "case default_arg of None \<Rightarrow> UNSET | Some d \<Rightarrow> d"
  have cases: "c_cases (build pairs default_arg) = pairs"
    by (rule c_cases_build)
  have dflt: "c_default (build pairs default_arg) = ?d"
    by (rule c_default_build)
  have "cond pairs default_arg = cond_loop pairs ?d"
    by (simp add: cond_def)
  also have "\<dots> = resolve_loop pairs ?d"
    by (rule cond_loop_resolve_loop)
  also have "\<dots> = resolve (build pairs default_arg)"
    by (simp only: resolve_def cases dflt)
  finally show ?thesis .
qed

section \<open>What the rendering hook returns\<close>

text \<open>
  C6, as stated, fails: the hook of \<open>Conditions\<close> does not return the resolved value. For
  the instance with the single branch \<open>(True, "<b>")\<close> the resolved value is the string
  \<open><b>\<close>, and the hook returns the trusted text \<open>&lt;b&gt;\<close>.
\<close>

theorem html_dunder_returns_resolved_counterexample:
  "outcome (resolve (when_op True (PStr ''<b>'') Conditions_init)) = Inr (PStr ''<b>'')
   \<and> outcome (html_dunder sample_str (when_op True (PStr ''<b>'') Conditions_init))
       = Inr (PMarkup ''&lt;b&gt;'')
   \<and> outcome (html_dunder sample_str (when_op True (PStr ''<b>'') Conditions_init))
       \<noteq> outcome (resolve (when_op True (PStr ''<b>'') Conditions_init))"
  by (simp add: html_dunder_def resolve_def when_op_def Conditions_init_def resolve_value_def
      to_markup_def escape_def escape_text_def escape_char_def outcome_def)

text \<open>
  C6, amended. The hook of \<open>Conditions\<close> resolves the instance and converts the resolved
  value itself, with \<open>_to_markup\<close>: when resolution returns \<open>v\<close> the hook gives what
  \<open>_to_markup v\<close> gives (after the calls of the resolution come those of the conversion),
  so a string comes back escaped, \<open>None\<close> as the empty trusted text and trusted text
  unchanged; when resolution raises, the hook raises the same. Whatever the hook returns is
  trusted text.
\<close>

theorem html_dunder_converts_resolved_value:
  "(outcome (resolve self) = Inr v \<longrightarrow>
      outcome (html_dunder f self) = outcome (to_markup f v)
      \<and> calls (html_dunder f self) = calls (resolve self) @ calls (to_markup f v))
   \<and> (outcome (resolve self) = Inl e \<longrightarrow> html_dunder f self = resolve self)
   \<and> (outcome (resolve self) = Inr (PStr s) \<longrightarrow>
        outcome (html_dunder f self) = Inr (PMarkup (escape_text s)))
   \<and> (outcome (resolve self) = Inr PNone \<longrightarrow> outcome (html_dunder f self) = Inr (PMarkup []))
   \<and> (outcome (resolve self) = Inr (PMarkup s) \<longrightarrow>
        outcome (html_dunder f self) = Inr (PMarkup s))
   \<and> (outcome (html_dunder f self) = Inr m \<longrightarrow> (\<exists>t. m = PMarkup t))"
proof -
  have 1: "outcome (resolve self) = Inr v \<longrightarrow>
      outcome (html_dunder f self) = outcome (to_markup f v)
      \<and> calls (html_dunder f self) = calls (resolve self) @ calls (to_markup f v)"
    by (auto simp: html_dunder_def outcome_def calls_def split: prod.splits sum.splits)
  have 2: "outcome (resolve self) = Inl e \<longrightarrow> html_dunder f self = resolve self"
    by (auto simp: html_dunder_def outcome_def split: prod.splits sum.splits)
  have 3: "outcome (resolve self) = Inr (PStr s) \<longrightarrow>
        outcome (html_dunder f self) = Inr (PMarkup (escape_text s))"
    by (auto simp: html_dunder_def outcome_def to_markup_def escape_def
        split: prod.splits sum.splits)
  have 4: "outcome (resolve self) = Inr PNone \<longrightarrow> outcome (html_dunder f self) = Inr (PMarkup [])"
    by (auto simp: html_dunder_def outcome_def to_markup_def split: prod.splits sum.splits)
  have 5: "outcome (resolve self) = Inr (PMarkup s) \<longrightarrow>
        outcome (html_dunder f self) = Inr (PMarkup s)"
    by (auto simp: html_dunder_def outcome_def to_markup_def split: prod.splits sum.splits)
  have 6: "outcome (html_dunder f self) = Inr m \<longrightarrow> (\<exists>t. m = PMarkup t)"
    using html_dunder_is_markup by blast
  from 1 2 3 4 5 6 show ?thesis by blast
qed

theorem html_dunder_converts_resolved_value_witness:
  "outcome (resolve (build [(True, PStr ''<b>'')] None)) = Inr (PStr ''<b>'')
   \<and> outcome (html_dunder sample_str (build [(True, PStr ''<b>'')] None))
       = Inr (PMarkup ''&lt;b&gt;'')
   \<and> outcome (resolve (build [(True, PCallable 5 (Inl (PyExn ''boom'')))] None))
       = Inl (PyExn ''boom'')
   \<and> html_dunder sample_str (build [(True, PCallable 5 (Inl (PyExn ''boom'')))] None)
       = resolve (build [(True, PCallable 5 (Inl (PyExn ''boom'')))] None)
   \<and> outcome (resolve (build [] (Some PNone))) = Inr PNone
   \<and> outcome (html_dunder sample_str (build [] (Some PNone))) = Inr (PMarkup [])
   \<and> outcome (resolve (build [] (Some (PMarkup ''<b>'')))) = Inr (PMarkup ''<b>'')
   \<and> outcome (html_dunder sample_str (build [] (Some (PMarkup ''<b>'')))) = Inr (PMarkup ''<b>'')"
proof -
  have r1: "outcome (resolve (build [(True, PStr ''<b>'')] None)) = Inr (PStr ''<b>'')"
    by (simp add: resolve_build cond_def resolve_value_def outcome_def)
  have r2: "outcome (resolve (build [(True, PCallable 5 (Inl (PyExn ''boom'')))] None))
       = Inl (PyExn ''boom'')"
    by (simp add: resolve_build cond_def resolve_value_def outcome_def)
  have r3: "outcome (resolve (build [] (Some PNone))) = Inr PNone"
    by (simp add: resolve_build cond_def resolve_value_def outcome_def)
  have r4: "outcome (resolve (build [] (Some (PMarkup ''<b>'')))) = Inr (PMarkup ''<b>'')"
    by (simp add: resolve_build cond_def resolve_value_def outcome_def)
  have e: "escape_text ''<b>'' = ''&lt;b&gt;''"
    by (simp add: escape_text_def escape_char_def)
  from r1 html_dunder_converts_resolved_value
        [of "build [(True, PStr ''<b>'')] None" "PStr ''<b>''" sample_str "PyExn ''boom''" "''<b>''"
            "PMarkup ''&lt;b&gt;''"]
  have "outcome (html_dunder sample_str (build [(True, PStr ''<b>'')] None))
       = Inr (PMarkup (escape_text ''<b>''))"
    by blast
  then have a1: "outcome (html_dunder sample_str (build [(True, PStr ''<b>'')] None))
       = Inr (PMarkup ''&lt;b&gt;'')"
    by (simp only: e)
  from r2 html_dunder_converts_resolved_value
        [of "build [(True, PCallable 5 (Inl (PyExn ''boom'')))] None" PNone sample_str
            "PyExn ''boom''" "''<b>''" PNone]
  have a2: "html_dunder sample_str (build [(True, PCallable 5 (Inl (PyExn ''boom'')))] None)
       = resolve (build [(True, PCallable 5 (Inl (PyExn ''boom'')))] None)"
    by blast
  from r3 html_dunder_converts_resolved_value
        [of "build [] (Some PNone)" PNone sample_str "PyExn ''boom''" "''<b>''" PNone]
  have a3: "outcome (html_dunder sample_str (build [] (Some PNone))) = Inr (PMarkup [])"
    by blast
  from r4 html_dunder_converts_resolved_value
        [of "build [] (Some (PMarkup ''<b>''))" "PMarkup ''<b>''" sample_str "PyExn ''boom''"
            "''<b>''" PNone]
  have a4: "outcome (html_dunder sample_str (build [] (Some (PMarkup ''<b>''))))
       = Inr (PMarkup ''<b>'')"
    by blast
  from r1 a1 r2 a2 r3 a3 r4 a4 show ?thesis
    by blast
qed

section \<open>The sentinel\<close>

lemma returns_unset_iff: "returns_unset v \<longleftrightarrow> (\<exists>k. v = PCallable k (Inr UNSET))"
  by (induction v rule: returns_unset.induct) auto

lemma resolve_value_not_unset:
  "\<not> gives_unset v \<Longrightarrow> outcome (resolve_value v) \<noteq> Inr UNSET"
  by (cases v) (auto simp: gives_unset_def returns_unset_iff resolve_value_def outcome_def)

lemma resolve_loop_not_unset:
  "filter (\<lambda>p. gives_unset (snd p)) cs = [] \<Longrightarrow> \<not> returns_unset d \<Longrightarrow>
   outcome (resolve_loop cs d) \<noteq> Inr UNSET"
proof (induction cs)
  case Nil
  show ?case
  proof (cases "d = UNSET")
    case True
    then show ?thesis by (simp add: outcome_def)
  next
    case False
    with Nil have "\<not> gives_unset d" by (simp add: gives_unset_def)
    then show ?thesis using False by (simp add: resolve_value_not_unset)
  qed
next
  case (Cons a cs)
  obtain b x where a: "a = (b, x)" by (cases a)
  from Cons.prems have x: "\<not> gives_unset x" and rest: "filter (\<lambda>p. gives_unset (snd p)) cs = []"
    by (auto simp: a split: if_splits)
  show ?case
    using Cons.IH [OF rest Cons.prems(2)] x by (simp add: a resolve_value_not_unset)
qed

lemma apply_calls_snoc: "apply_calls self (cs @ [c]) = apply_call (apply_calls self cs) c"
  by (simp add: apply_calls_def)

lemma sentinel_free_snoc:
  "sentinel_free (cs @ [c]) \<longleftrightarrow> sentinel_free cs \<and> \<not> gives_unset (call_value c)"
  by (simp add: sentinel_free_def)

lemma sentinel_free_invariant:
  "sentinel_free cs \<Longrightarrow>
   filter (\<lambda>p. gives_unset (snd p)) (c_cases (apply_calls Conditions_init cs)) = []
   \<and> \<not> returns_unset (c_default (apply_calls Conditions_init cs))"
proof (induction cs rule: rev_induct)
  case Nil
  then show ?case by (simp add: apply_calls_def Conditions_init_def)
next
  case (snoc c cs)
  then have ih: "filter (\<lambda>p. gives_unset (snd p)) (c_cases (apply_calls Conditions_init cs)) = []"
      "\<not> returns_unset (c_default (apply_calls Conditions_init cs))"
    and c: "\<not> gives_unset (call_value c)"
    by (simp_all add: sentinel_free_snoc)
  show ?case
    using ih c
    by (cases c) (simp_all add: apply_calls_snoc when_op_def default_op_def gives_unset_def)
qed

lemma default_stays_set:
  "c_default self \<noteq> UNSET \<Longrightarrow> sentinel_free cs \<Longrightarrow> c_default (apply_calls self cs) \<noteq> UNSET"
proof (induction cs rule: rev_induct)
  case Nil
  then show ?case by (simp add: apply_calls_def)
next
  case (snoc c cs)
  then have ih: "c_default (apply_calls self cs) \<noteq> UNSET" and c: "\<not> gives_unset (call_value c)"
    by (simp_all add: sentinel_free_snoc)
  show ?case
    using ih c
    by (cases c) (simp_all add: apply_calls_snoc when_op_def default_op_def gives_unset_def)
qed

text \<open>
  C7. The sentinel does not come out: when the caller does not hold it (no value passed in
  is the sentinel or a callable returning it), resolving an instance reached from a fresh
  one by any sequence of \<open>when\<close> and \<open>default\<close> calls never returns the sentinel, nor does
  \<open>cond\<close>; the rendering hook never returns it for any instance. A second call of
  \<open>default\<close> overwrites the first. After a call of \<open>default\<close> with any value of the caller,
  \<open>None\<close> and \<open>False\<close> included, no further sequence of such calls brings the default slot
  back to the sentinel.
\<close>

theorem sentinel_stays_inside:
  "(sentinel_free cs \<longrightarrow> outcome (resolve (apply_calls Conditions_init cs)) \<noteq> Inr UNSET)
   \<and> outcome (html_dunder f self) \<noteq> Inr UNSET
   \<and> (args_sentinel_free pairs default_arg \<longrightarrow> outcome (cond pairs default_arg) \<noteq> Inr UNSET)
   \<and> default_op v2 (default_op v1 self) = default_op v2 self
   \<and> c_default (default_op v2 (default_op v1 self)) = v2
   \<and> (v \<noteq> UNSET \<and> sentinel_free cs \<longrightarrow>
        c_default (apply_calls (default_op v self) cs) \<noteq> UNSET)"
proof -
  have 1: "sentinel_free cs \<longrightarrow> outcome (resolve (apply_calls Conditions_init cs)) \<noteq> Inr UNSET"
    using sentinel_free_invariant [of cs] by (auto simp: resolve_def resolve_loop_not_unset)
  have 2: "outcome (html_dunder f self) \<noteq> Inr UNSET"
    using html_dunder_is_markup [of f self UNSET] by auto
  have 3: "args_sentinel_free pairs default_arg \<longrightarrow> outcome (cond pairs default_arg) \<noteq> Inr UNSET"
  proof
    assume a: "args_sentinel_free pairs default_arg"
    then have "\<not> returns_unset (case default_arg of None \<Rightarrow> UNSET | Some d \<Rightarrow> d)"
      by (auto simp: args_sentinel_free_def gives_unset_def split: option.splits)
    with a show "outcome (cond pairs default_arg) \<noteq> Inr UNSET"
      by (simp add: cond_def cond_loop_resolve_loop resolve_loop_not_unset args_sentinel_free_def)
  qed
  have 4: "default_op v2 (default_op v1 self) = default_op v2 self"
    by (simp add: default_op_def)
  have 5: "c_default (default_op v2 (default_op v1 self)) = v2"
    by (simp add: default_op_def)
  have 6: "v \<noteq> UNSET \<and> sentinel_free cs \<longrightarrow>
        c_default (apply_calls (default_op v self) cs) \<noteq> UNSET"
    using default_stays_set [of "default_op v self" cs] by (simp add: default_op_def)
  from 1 2 3 4 5 6 show ?thesis by blast
qed

theorem sentinel_stays_inside_witness:
  "sentinel_free [Default PNone, When False (PStr ''a''), Default (PBool False)]
   \<and> PNone \<noteq> UNSET
   \<and> outcome (resolve (apply_calls Conditions_init
        [Default PNone, When False (PStr ''a''), Default (PBool False)])) \<noteq> Inr UNSET
   \<and> args_sentinel_free [(False, PStr ''a'')] (Some PNone)
   \<and> outcome (cond [(False, PStr ''a'')] (Some PNone)) \<noteq> Inr UNSET
   \<and> c_default (apply_calls (default_op PNone Conditions_init)
        [Default PNone, When False (PStr ''a''), Default (PBool False)]) \<noteq> UNSET"
  using sentinel_stays_inside
    [of "[Default PNone, When False (PStr ''a''), Default (PBool False)]" sample_str
        Conditions_init "[(False, PStr ''a'')]" "Some PNone" "PBool False" PNone PNone]
  by (simp add: sentinel_free_def args_sentinel_free_def gives_unset_def)

section \<open>Exceptions\<close>

lemma resolve_value_raises:
  "outcome (resolve_value v) = Inl e \<Longrightarrow> \<exists>k. v = PCallable k (Inl e)"
  by (cases v) (auto simp: resolve_value_def outcome_def)

lemma cond_raises:
  assumes "outcome (cond cs default_arg) = Inl e"
  shows "\<exists>k. cond cs default_arg = (Inl e, [k]) \<and>
           ((\<exists>pre post. first_truthy cs pre (PCallable k (Inl e)) post)
            \<or> (none_truthy cs \<and> default_arg = Some (PCallable k (Inl e))))"
proof -
  from first_or_none [of cs] show ?thesis
  proof
    assume "\<exists>pre v post. first_truthy cs pre v post"
    then obtain pre v post where f: "first_truthy cs pre v post"
      by blast
    then have c: "cond cs default_arg = resolve_value v"
      by (rule cond_first)
    with assms obtain k where "v = PCallable k (Inl e)"
      using resolve_value_raises by auto
    with f c show ?thesis
      by (auto simp: resolve_value_callable)
  next
    assume n: "none_truthy cs"
    show ?thesis
    proof (cases default_arg)
      case None
      with n assms show ?thesis
        by (simp add: cond_none_None outcome_def)
    next
      case (Some d)
      with n assms have d: "d \<noteq> UNSET" and c: "cond cs default_arg = resolve_value d"
        by (auto simp: cond_none_Some outcome_def split: if_splits)
      with assms obtain k where "d = PCallable k (Inl e)"
        using resolve_value_raises by auto
      with n c Some show ?thesis
        by (auto simp: resolve_value_callable)
    qed
  qed
qed

text \<open>
  C8, as stated, fails for the rendering hook of an instance: an exception can leave it
  that no selected callable and no \<^verbatim>\<open>__html__\<close> of the resolved value raised. For the
  instance with the single branch \<open>(True, o)\<close>, where \<open>o\<close> is an object that is not callable,
  has no \<^verbatim>\<open>__html__\<close> and whose \<^verbatim>\<open>__str__\<close> raises, the resolution returns \<open>o\<close>
  with no call made, and the hook raises what \<^verbatim>\<open>str(o)\<close> raises.
\<close>

theorem str_exception_escapes_html_dunder_counterexample:
  "html_dunder raising_str (build [(True, PObj 1)] None) = (Inl (PyExn ''boom''), [])
   \<and> resolve (build [(True, PObj 1)] None) = (Inr (PObj 1), [])
   \<and> \<not> callable (PObj 1)
   \<and> \<not> has_html_dunder (PObj 1)"
  by (simp add: html_dunder_def resolve_build cond_def resolve_value_def to_markup_def
      raising_str_def)

text \<open>
  C8, amended. With conditions of type \<open>bool\<close>, \<open>when\<close> and \<open>default\<close> are total functions
  on instances, and \<open>cond\<close> and the resolution of an instance raise nothing of their own:
  when one of them raises \<open>e\<close>, the selected value is a callable \<open>k\<close> whose call raises \<open>e\<close>,
  and \<open>k\<close> was called once. Conversely the exception of the selected callable is the
  outcome, unchanged, after a single call, also through the rendering hook of the
  instance. That hook lets two more exceptions through, both unchanged: the one raised by
  the \<^verbatim>\<open>__html__\<close> of the resolved value, after a single call of it, and the one raised by
  \<^verbatim>\<open>str\<close> of a resolved value that is neither \<open>None\<close> nor an object with
  \<^verbatim>\<open>__html__\<close>. When the hook of an instance raises \<open>e\<close>, \<open>e\<close> is one of these three.
\<close>

theorem only_selected_computation_can_raise:
  "(outcome (cond cs default_arg) = Inl e \<longrightarrow>
      (\<exists>k. cond cs default_arg = (Inl e, [k]) \<and>
           ((\<exists>pre post. first_truthy cs pre (PCallable k (Inl e)) post)
            \<or> (none_truthy cs \<and> default_arg = Some (PCallable k (Inl e))))))
   \<and> (outcome (resolve (build cs default_arg)) = Inl e \<longrightarrow>
      (\<exists>k. resolve (build cs default_arg) = (Inl e, [k]) \<and>
           ((\<exists>pre post. first_truthy cs pre (PCallable k (Inl e)) post)
            \<or> (none_truthy cs \<and> default_arg = Some (PCallable k (Inl e))))))
   \<and> (first_truthy cs pre (PCallable k (Inl e)) post
        \<or> (none_truthy cs \<and> default_arg = Some (PCallable k (Inl e))) \<longrightarrow>
      cond cs default_arg = (Inl e, [k])
      \<and> resolve (build cs default_arg) = (Inl e, [k])
      \<and> html_dunder f (build cs default_arg) = (Inl e, [k]))
   \<and> to_markup f (PHtmlObj h (Inl e)) = (Inl e, [h])
   \<and> (resolve self = (Inr (PHtmlObj h (Inl e)), log) \<longrightarrow>
        html_dunder f self = (Inl e, log @ [h]))
   \<and> (resolve self = (Inr v, log) \<and> v \<noteq> PNone \<and> \<not> has_html_dunder v
        \<and> py_str f v = Inl e \<longrightarrow>
        to_markup f v = (Inl e, []) \<and> html_dunder f self = (Inl e, log))
   \<and> (outcome (html_dunder f self) = Inl e \<longrightarrow>
        outcome (resolve self) = Inl e
        \<or> (\<exists>h. outcome (resolve self) = Inr (PHtmlObj h (Inl e)))
        \<or> (\<exists>v. outcome (resolve self) = Inr v \<and> v \<noteq> PNone \<and> \<not> has_html_dunder v
               \<and> py_str f v = Inl e))"
proof -
  have 1: "outcome (cond cs default_arg) = Inl e \<longrightarrow>
      (\<exists>k. cond cs default_arg = (Inl e, [k]) \<and>
           ((\<exists>pre post. first_truthy cs pre (PCallable k (Inl e)) post)
            \<or> (none_truthy cs \<and> default_arg = Some (PCallable k (Inl e)))))"
    using cond_raises by blast
  have 2: "outcome (resolve (build cs default_arg)) = Inl e \<longrightarrow>
      (\<exists>k. resolve (build cs default_arg) = (Inl e, [k]) \<and>
           ((\<exists>pre post. first_truthy cs pre (PCallable k (Inl e)) post)
            \<or> (none_truthy cs \<and> default_arg = Some (PCallable k (Inl e)))))"
    using 1 by (simp only: resolve_build)
  have 3: "first_truthy cs pre (PCallable k (Inl e)) post
        \<or> (none_truthy cs \<and> default_arg = Some (PCallable k (Inl e))) \<longrightarrow>
      cond cs default_arg = (Inl e, [k])
      \<and> resolve (build cs default_arg) = (Inl e, [k])
      \<and> html_dunder f (build cs default_arg) = (Inl e, [k])"
  proof
    assume "first_truthy cs pre (PCallable k (Inl e)) post
        \<or> (none_truthy cs \<and> default_arg = Some (PCallable k (Inl e)))"
    then have "cond cs default_arg = (Inl e, [k])"
      using selected_resolves [of cs pre "PCallable k (Inl e)" post default_arg]
      by (auto simp: resolve_value_callable)
    then show "cond cs default_arg = (Inl e, [k])
      \<and> resolve (build cs default_arg) = (Inl e, [k])
      \<and> html_dunder f (build cs default_arg) = (Inl e, [k])"
      by (simp add: resolve_build html_dunder_def)
  qed
  have 4: "to_markup f (PHtmlObj h (Inl e)) = (Inl e, [h])"
    by (simp add: to_markup_def)
  have 5: "resolve self = (Inr (PHtmlObj h (Inl e)), log) \<longrightarrow>
        html_dunder f self = (Inl e, log @ [h])"
    by (simp add: html_dunder_returns 4 outcome_def calls_def)
  have 6: "resolve self = (Inr v, log) \<and> v \<noteq> PNone \<and> \<not> has_html_dunder v
        \<and> py_str f v = Inl e \<longrightarrow>
        to_markup f v = (Inl e, []) \<and> html_dunder f self = (Inl e, log)"
  proof
    assume a: "resolve self = (Inr v, log) \<and> v \<noteq> PNone \<and> \<not> has_html_dunder v
        \<and> py_str f v = Inl e"
    then have t: "to_markup f v = (Inl e, [])"
      by (simp add: to_markup_def)
    with a show "to_markup f v = (Inl e, []) \<and> html_dunder f self = (Inl e, log)"
      by (simp add: html_dunder_returns outcome_def calls_def)
  qed
  have 7: "outcome (html_dunder f self) = Inl e \<longrightarrow>
        outcome (resolve self) = Inl e
        \<or> (\<exists>h. outcome (resolve self) = Inr (PHtmlObj h (Inl e)))
        \<or> (\<exists>v. outcome (resolve self) = Inr v \<and> v \<noteq> PNone \<and> \<not> has_html_dunder v
               \<and> py_str f v = Inl e)"
    using html_dunder_raises by blast
  from 1 2 3 4 5 6 7 show ?thesis
    by blast
qed

theorem only_selected_computation_can_raise_witness:
  "first_truthy [(False, PStr ''a''), (True, PCallable 5 (Inl (PyExn ''boom'')))]
     [(False, PStr ''a'')] (PCallable 5 (Inl (PyExn ''boom''))) []
   \<and> cond [(False, PStr ''a''), (True, PCallable 5 (Inl (PyExn ''boom'')))] None
       = (Inl (PyExn ''boom''), [5])
   \<and> resolve (build [(False, PStr ''a''), (True, PCallable 5 (Inl (PyExn ''boom'')))] None)
       = (Inl (PyExn ''boom''), [5])
   \<and> html_dunder sample_str
        (build [(False, PStr ''a''), (True, PCallable 5 (Inl (PyExn ''boom'')))] None)
       = (Inl (PyExn ''boom''), [5])
   \<and> resolve (build [(True, PHtmlObj 8 (Inl (PyExn ''bad hook'')))] None)
       = (Inr (PHtmlObj 8 (Inl (PyExn ''bad hook''))), [])
   \<and> html_dunder sample_str (build [(True, PHtmlObj 8 (Inl (PyExn ''bad hook'')))] None)
       = (Inl (PyExn ''bad hook''), [8])
   \<and> resolve (build [(True, PCallable 6 (Inr (PObj 1)))] None) = (Inr (PObj 1), [6])
   \<and> py_str raising_str (PObj 1) = Inl (PyExn ''boom'')
   \<and> html_dunder raising_str (build [(True, PCallable 6 (Inr (PObj 1)))] None)
       = (Inl (PyExn ''boom''), [6])"
proof -
  have f: "first_truthy [(False, PStr ''a''), (True, PCallable 5 (Inl (PyExn ''boom'')))]
     [(False, PStr ''a'')] (PCallable 5 (Inl (PyExn ''boom''))) []"
    by (simp add: first_truthy_def none_truthy_def)
  have r2: "resolve (build [(True, PHtmlObj 8 (Inl (PyExn ''bad hook'')))] None)
       = (Inr (PHtmlObj 8 (Inl (PyExn ''bad hook''))), [])"
    by (simp add: resolve_build cond_def resolve_value_def)
  have r3: "resolve (build [(True, PCallable 6 (Inr (PObj 1)))] None) = (Inr (PObj 1), [6])"
    by (simp add: resolve_build cond_def resolve_value_def)
  have s3: "PObj 1 \<noteq> PNone \<and> \<not> has_html_dunder (PObj 1)
      \<and> py_str raising_str (PObj 1) = Inl (PyExn ''boom'')"
    by (simp add: raising_str_def)
  from f only_selected_computation_can_raise
    [of "[(False, PStr ''a''), (True, PCallable 5 (Inl (PyExn ''boom'')))]" None "PyExn ''boom''"
        "[(False, PStr ''a'')]" 5 "[]" sample_str]
  have a1: "cond [(False, PStr ''a''), (True, PCallable 5 (Inl (PyExn ''boom'')))] None
       = (Inl (PyExn ''boom''), [5])
   \<and> resolve (build [(False, PStr ''a''), (True, PCallable 5 (Inl (PyExn ''boom'')))] None)
       = (Inl (PyExn ''boom''), [5])
   \<and> html_dunder sample_str
        (build [(False, PStr ''a''), (True, PCallable 5 (Inl (PyExn ''boom'')))] None)
       = (Inl (PyExn ''boom''), [5])"
    by blast
  from r2 only_selected_computation_can_raise
    [of "[]" None "PyExn ''bad hook''" "[]" 0 "[]" sample_str 8
        "build [(True, PHtmlObj 8 (Inl (PyExn ''bad hook'')))] None" "[]"]
  have "html_dunder sample_str (build [(True, PHtmlObj 8 (Inl (PyExn ''bad hook'')))] None)
       = (Inl (PyExn ''bad hook''), [] @ [8])"
    by blast
  then have a2: "html_dunder sample_str
        (build [(True, PHtmlObj 8 (Inl (PyExn ''bad hook'')))] None)
       = (Inl (PyExn ''bad hook''), [8])"
    by simp
  from r3 s3 only_selected_computation_can_raise
    [of "[]" None "PyExn ''boom''" "[]" 0 "[]" raising_str 8
        "build [(True, PCallable 6 (Inr (PObj 1)))] None" "[6]" "PObj 1"]
  have a3: "html_dunder raising_str (build [(True, PCallable 6 (Inr (PObj 1)))] None)
       = (Inl (PyExn ''boom''), [6])"
    by blast
  from f a1 r2 a2 r3 s3 a3 show ?thesis
    by blast
qed

section \<open>Callable values\<close>

text \<open>
  C9. For the selected value \<open>v\<close> of a resolution (the value of the first branch whose
  condition holds, or the default given when no condition holds), the result is that of
  the call \<open>v()\<close> when \<open>callable v\<close>, and \<open>v\<close> itself with no call otherwise; nothing but
  \<open>callable\<close> is looked at. So a callable \<open>k\<close> is called even if it was meant as data, and
  what comes back is what the call returns, not \<open>k\<close>.
\<close>

theorem callable_is_the_only_marker:
  assumes "first_truthy cs pre v post \<or> (none_truthy cs \<and> default_arg = Some v \<and> v \<noteq> UNSET)"
  shows "cond cs default_arg = (if callable v then call v else (Inr v, []))
       \<and> resolve (build cs default_arg) = (if callable v then call v else (Inr v, []))
       \<and> (v = PCallable k r \<longrightarrow> cond cs default_arg = (r, [k]))"
  using selected_resolves [OF assms]
  by (auto simp: resolve_build resolve_value_def)

theorem callable_is_the_only_marker_witness:
  "first_truthy [(True, PCallable 9 (Inr (PStr ''<b>'')))] [] (PCallable 9 (Inr (PStr ''<b>''))) []
   \<and> cond [(True, PCallable 9 (Inr (PStr ''<b>'')))] None = (Inr (PStr ''<b>''), [9])
   \<and> resolve (build [(True, PCallable 9 (Inr (PStr ''<b>'')))] None) = (Inr (PStr ''<b>''), [9])"
  using callable_is_the_only_marker
    [of "[(True, PCallable 9 (Inr (PStr ''<b>'')))]" "[]" "PCallable 9 (Inr (PStr ''<b>''))" "[]"
        None 9 "Inr (PStr ''<b>'')"]
  by (simp add: first_truthy_def none_truthy_def)

section \<open>No default and a default of None\<close>

text \<open>
  C10. When no pair matches, \<open>cond\<close> without a default and \<open>cond\<close> with the default
  \<open>None\<close> return the same: \<open>None\<close>, with no call made.
\<close>

theorem cond_none_default_same_as_no_default:
  assumes "none_truthy pairs"
  shows "cond pairs None = cond pairs (Some PNone) \<and> cond pairs None = (Inr PNone, [])"
  using assms by (simp add: cond_none_Some cond_none_None resolve_value_plain)

theorem cond_none_default_same_as_no_default_witness:
  "none_truthy [(False, PStr ''a'')]
   \<and> cond [(False, PStr ''a'')] None = cond [(False, PStr ''a'')] (Some PNone)
   \<and> cond [(False, PStr ''a'')] None = (Inr PNone, [])"
proof -
  have n: "none_truthy [(False, PStr ''a'')]"
    by (simp add: none_truthy_def)
  from n cond_none_default_same_as_no_default [OF n] show ?thesis
    by blast
qed

end
